theory Spec2Isabelle
  imports Main
begin

section \<open>The session table (schema.ts, getCachedSession, storeCachedSession)\<close>

text \<open>
  A document of the table \<open>forkable_sessions\<close>. The field \<open>doc_id\<close> is the system
  field \<open>_id\<close>. Timestamps are epoch milliseconds, as \<open>Date.now()\<close> returns them.
  The table is the list of its documents in order of creation (the system field
  \<open>_creationTime\<close>), which is the order in which a query on the index \<open>by_email\<close>
  yields the documents of one email: an index orders by its fields and then by
  creation time, ascending unless the query asks otherwise. A new document gets an
  identifier that no document has had.
\<close>

record session =
  doc_id :: nat
  email :: string
  cookie :: string
  expiresAt :: int
  createdAt :: int

record db =
  rows :: "session list"
  next_id :: nat

text \<open>\<open>.first()\<close> of a query: the first document, or null.\<close>

fun first :: "'a list \<Rightarrow> 'a option" where
  "first [] = None"
| "first (x # xs) = Some x"

text \<open>\<open>.withIndex("by_email", (q) => q.eq("email", e))\<close>\<close>

definition by_email :: "string \<Rightarrow> session list \<Rightarrow> session list" where
  "by_email e rs = filter (\<lambda>r. email r = e) rs"

text \<open>\<open>ctx.db.delete(id)\<close> and \<open>ctx.db.insert(...)\<close>\<close>

definition db_delete :: "nat \<Rightarrow> db \<Rightarrow> db" where
  "db_delete i d = d\<lparr>rows := filter (\<lambda>r. doc_id r \<noteq> i) (rows d)\<rparr>"

definition db_insert :: "string \<Rightarrow> string \<Rightarrow> int \<Rightarrow> int \<Rightarrow> db \<Rightarrow> db" where
  "db_insert e c ex cr d =
     d\<lparr>rows := rows d @ [\<lparr>doc_id = next_id d, email = e, cookie = c,
                          expiresAt = ex, createdAt = cr\<rparr>],
       next_id := Suc (next_id d)\<rparr>"

text \<open>
  \<open>getCachedSession\<close>: the first document of the email whose \<open>expiresAt\<close> is
  greater than \<open>now\<close>, or null.
\<close>

definition getCachedSession :: "int \<Rightarrow> db \<Rightarrow> string \<Rightarrow> session option" where
  "getCachedSession now d e =
     first (filter (\<lambda>r. expiresAt r > now) (by_email e (rows d)))"

text \<open>
  \<open>storeCachedSession\<close>: delete the first document of the email, if there is one,
  then insert the new document with \<open>createdAt = Date.now()\<close>.
\<close>

definition storeCachedSession :: "int \<Rightarrow> db \<Rightarrow> string \<Rightarrow> string \<Rightarrow> int \<Rightarrow> db" where
  "storeCachedSession now d e c ex =
     (let d1 = (case first (by_email e (rows d)) of
                  Some existingSession \<Rightarrow> db_delete (doc_id existingSession) d
                | None \<Rightarrow> d)
      in db_insert e c ex now d1)"

text \<open>The invariant of the data model: at most one document per email.\<close>

definition one_per_account :: "db \<Rightarrow> bool" where
  "one_per_account d = distinct (map email (rows d))"

text \<open>A sequence of cache operations, each with the clock reading of its call.\<close>

datatype cache_op = CacheGet int string | CachePut int string string int

fun run_op :: "db \<Rightarrow> cache_op \<Rightarrow> db" where
  "run_op d (CacheGet now e) = d"
| "run_op d (CachePut now e c ex) = storeCachedSession now d e c ex"

definition run_ops :: "db \<Rightarrow> cache_op list \<Rightarrow> db" where
  "run_ops d ops = foldl run_op d ops"

definition empty_db :: db where
  "empty_db = \<lparr>rows = [], next_id = 0\<rparr>"

section \<open>JavaScript values and strings\<close>

text \<open>
  A thrown value: an instance of \<open>Error\<close> with its message, or any other value.
  A computation that may throw returns \<open>thrown + 'a\<close>, \<open>Inl\<close> the thrown value.
\<close>

datatype thrown = JsError string | NonError

text \<open>Truthiness of an optional string: \<open>undefined\<close>, \<open>null\<close> and \<open>""\<close> are falsy.\<close>

fun truthy :: "string option \<Rightarrow> bool" where
  "truthy None = False"
| "truthy (Some s) = (s \<noteq> [])"

text \<open>\<open>x || dflt\<close> on an optional string.\<close>

definition or_else :: "string option \<Rightarrow> string \<Rightarrow> string" where
  "or_else x dflt = (case x of None \<Rightarrow> dflt | Some s \<Rightarrow> if s = [] then dflt else s)"

fun startsWith :: "string \<Rightarrow> string \<Rightarrow> bool" where
  "startsWith s [] = True"
| "startsWith [] (c # cs) = False"
| "startsWith (x # xs) (c # cs) = (x = c \<and> startsWith xs cs)"

text \<open>\<open>s.includes(sub)\<close>\<close>

fun includes_str :: "string \<Rightarrow> string \<Rightarrow> bool" where
  "includes_str [] sub = (sub = [])"
| "includes_str (x # xs) sub = (startsWith (x # xs) sub \<or> includes_str xs sub)"

text \<open>\<open>s.indexOf(sub)\<close>, with \<open>None\<close> for -1.\<close>

fun indexOf :: "string \<Rightarrow> string \<Rightarrow> nat option" where
  "indexOf [] sub = (if sub = [] then Some 0 else None)"
| "indexOf (x # xs) sub =
     (if startsWith (x # xs) sub then Some 0 else map_option Suc (indexOf xs sub))"

text \<open>\<open>parts.join(sep)\<close>\<close>

fun join :: "string \<Rightarrow> string list \<Rightarrow> string" where
  "join sep [] = []"
| "join sep [x] = x"
| "join sep (x # y # ys) = x @ sep @ join sep (y # ys)"

text \<open>\<open>s.split(sep)\<close> for a separator of one character.\<close>

fun split :: "char \<Rightarrow> string \<Rightarrow> string list" where
  "split sep [] = [[]]"
| "split sep (c # cs) =
     (if c = sep then [] # split sep cs
      else (case split sep cs of p # ps \<Rightarrow> (c # p) # ps | [] \<Rightarrow> [[c]]))"

text \<open>A number in a template literal or \<open>String(n)\<close>, for a natural number.\<close>

definition digit_char :: "nat \<Rightarrow> char" where
  "digit_char n = ''0123456789'' ! (n mod 10)"

function show_nat :: "nat \<Rightarrow> string" where
  "show_nat n = (if n < 10 then [digit_char n] else show_nat (n div 10) @ [digit_char n])"
  by pat_completeness auto
termination
  by (relation "measure id") auto

declare show_nat.simps [simp del]

text \<open>The character classes \<open>\d\<close>, \<open>\w\<close> and \<open>\s\<close> on the characters of a header value.\<close>

definition is_digit :: "char \<Rightarrow> bool" where
  "is_digit c = (c \<in> set ''0123456789'')"

definition is_word :: "char \<Rightarrow> bool" where
  "is_word c =
     (c \<in> set ''abcdefghijklmnopqrstuvwxyzABCDEFGHIJKLMNOPQRSTUVWXYZ0123456789_'')"

definition is_space :: "char \<Rightarrow> bool" where
  "is_space c = (c \<in> set [CHR 0x09, CHR 0x0A, CHR 0x0B, CHR 0x0C, CHR 0x0D, CHR 0x20, CHR 0xA0])"

section \<open>formatLunchResponse\<close>

record lunch_entry =
  restaurant :: string
  items :: "string list"

record ForkableResponse =
  date :: string
  lunch :: "lunch_entry list"
  success :: bool

record ErrorResponse =
  error :: string
  status :: "nat option"

datatype lunch_result = Failure ErrorResponse | Delivered ForkableResponse

text \<open>\<open>.filter(Boolean)\<close> on an array of strings and nulls.\<close>

fun filter_Boolean :: "string option list \<Rightarrow> string list" where
  "filter_Boolean [] = []"
| "filter_Boolean (None # xs) = filter_Boolean xs"
| "filter_Boolean (Some s # xs) = (if s = [] then filter_Boolean xs else s # filter_Boolean xs)"

definition render_item :: "lunch_entry \<Rightarrow> string option" where
  "render_item item =
     (let foodItems = items item in
      if length foodItems > 0
      then (let foodList = join '', '' foodItems in Some (restaurant item @ '': '' @ foodList))
      else None)"

fun formatLunchResponse :: "lunch_result \<Rightarrow> string" where
  "formatLunchResponse (Failure e) = error e"
| "formatLunchResponse (Delivered r) =
     (if \<not> success r then ''Unknown error''
      else (let lunchItems = lunch r in
            if length lunchItems = 0 then ''No lunch ordered''
            else (let responses = filter_Boolean (map render_item lunchItems) in
                  if length responses > 0 then join ''. '' responses
                  else ''No lunch ordered'')))"

section \<open>fetchLunchWithSession\<close>

text \<open>
  What the upstream answers to the delivery query: \<open>fetch\<close> throws or resolves to a
  response with a status and a body, whose \<open>json()\<close> throws or yields the data.
  Absent or null members of the data are \<open>None\<close>.
\<close>

record piece =
  name :: "string option"

record order =
  displayName :: "string option"
  pieces :: "piece list option"

record delivery =
  forDeliveryAt :: "string option"
  orders :: "order list option"

record gql_error =
  message :: "string option"
  code :: "string option"

record lunch_data =
  errors :: "gql_error list option"
  myDeliveries :: "delivery list option"

record lunch_http =
  lunch_status :: nat
  lunch_json :: "thrown + lunch_data"

text \<open>\<open>response.ok\<close>: the status is in the range 200 to 299.\<close>

definition response_ok :: "nat \<Rightarrow> bool" where
  "response_ok st = (200 \<le> st \<and> st \<le> 299)"

definition auth_error :: "gql_error \<Rightarrow> bool" where
  "auth_error e =
     ((case message e of Some m \<Rightarrow> includes_str m ''unauthenticated'' | None \<Rightarrow> False) \<or>
      (case message e of Some m \<Rightarrow> includes_str m ''unauthorized'' | None \<Rightarrow> False) \<or>
      code e = Some ''UNAUTHENTICATED'')"

fun order_entries :: "order list \<Rightarrow> lunch_entry list" where
  "order_entries [] = []"
| "order_entries (ord # rest) =
     (case pieces ord of
        None \<Rightarrow> order_entries rest
      | Some ps \<Rightarrow>
          if length ps > 0
          then \<lparr>restaurant = or_else (displayName ord) ''Unknown Restaurant'',
                items = filter (\<lambda>s. s \<noteq> []) (map (\<lambda>p. or_else (name p) []) ps)\<rparr>
               # order_entries rest
          else order_entries rest)"

fun delivery_entries :: "string \<Rightarrow> delivery list \<Rightarrow> lunch_entry list" where
  "delivery_entries targetDateStr [] = []"
| "delivery_entries targetDateStr (dl # rest) =
     (let deliveryDate = map_option (take 10) (forDeliveryAt dl) in
      if deliveryDate = Some targetDateStr
      then order_entries (case orders dl of Some os \<Rightarrow> os | None \<Rightarrow> [])
           @ delivery_entries targetDateStr rest
      else delivery_entries targetDateStr rest)"

definition fetchLunchWithSession :: "thrown + lunch_http \<Rightarrow> string \<Rightarrow> thrown + lunch_result" where
  "fetchLunchWithSession reply targetDateStr =
     (case reply of
        Inl t \<Rightarrow> Inl t
      | Inr lunchResponse \<Rightarrow>
          if \<not> response_ok (lunch_status lunchResponse)
          then Inr (Failure
                 \<lparr>error = ''Failed to fetch lunch data with status ''
                            @ show_nat (lunch_status lunchResponse),
                  status = Some (lunch_status lunchResponse)\<rparr>)
          else (case lunch_json lunchResponse of
                  Inl t \<Rightarrow> Inl t
                | Inr data \<Rightarrow>
                    if (case errors data of Some es \<Rightarrow> list_ex auth_error es | None \<Rightarrow> False)
                    then Inr (Failure \<lparr>error = ''Authentication failed'', status = Some 401\<rparr>)
                    else Inr (Delivered
                           \<lparr>date = targetDateStr,
                            lunch = delivery_entries targetDateStr
                                      (case myDeliveries data of Some ds \<Rightarrow> ds | None \<Rightarrow> []),
                            success = True\<rparr>)))"

section \<open>Regular expressions of loginAndGetSession\<close>

text \<open>
  Both regular expressions of the source are sequences of character classes under
  greedy quantifiers. An atom is a class with the least and the greatest number of
  repetitions (\<open>None\<close>: unbounded). The matcher backtracks as the JavaScript one
  does: an atom first takes as many characters as it can, and gives them back one at
  a time while the rest of the pattern fails.
\<close>

type_synonym atom = "(char \<Rightarrow> bool) \<times> nat \<times> nat option"

definition max_run :: "(char \<Rightarrow> bool) \<Rightarrow> nat option \<Rightarrow> string \<Rightarrow> nat" where
  "max_run P hi s =
     (let n = length (takeWhile P s) in case hi of None \<Rightarrow> n | Some h \<Rightarrow> min h n)"

primrec try_down :: "(string \<Rightarrow> nat option) \<Rightarrow> string \<Rightarrow> nat \<Rightarrow> nat \<Rightarrow> nat option" where
  "try_down rest s lo 0 =
     (if 0 < lo then None else rest s)"
| "try_down rest s lo (Suc k) =
     (if Suc k < lo then None
      else (case rest (drop (Suc k) s) of
              Some n \<Rightarrow> Some (Suc k + n)
            | None \<Rightarrow> try_down rest s lo k))"

text \<open>The length of the match that starts at the head of the string.\<close>

primrec rx_here :: "atom list \<Rightarrow> string \<Rightarrow> nat option" where
  "rx_here [] s = Some 0"
| "rx_here (a # as) s =
     (case a of (P, lo, hi) \<Rightarrow> try_down (rx_here as) s lo (max_run P hi s))"

text \<open>The leftmost match: its start and its length.\<close>

fun rx_search :: "atom list \<Rightarrow> string \<Rightarrow> (nat \<times> nat) option" where
  "rx_search as [] = map_option (Pair 0) (rx_here as [])"
| "rx_search as (c # cs) =
     (case rx_here as (c # cs) of
        Some n \<Rightarrow> Some (0, n)
      | None \<Rightarrow> map_option (\<lambda>(i, n). (Suc i, n)) (rx_search as cs))"

text \<open>\<open>s.match(re)[0]\<close>, or \<open>None\<close> when \<open>match\<close> returns null.\<close>

definition rx_match :: "atom list \<Rightarrow> string \<Rightarrow> string option" where
  "rx_match as s = map_option (\<lambda>(i, n). take n (drop i s)) (rx_search as s)"

definition lit :: "char \<Rightarrow> atom" where
  "lit c = ((\<lambda>x. x = c), 1, Some 1)"

text \<open>\<open>/_easyorder_session=([^;]+)/\<close>\<close>

definition session_rx :: "atom list" where
  "session_rx = map lit ''_easyorder_session='' @ [((\<lambda>c. c \<noteq> CHR '';''), 1, None)]"

text \<open>\<open>/(\d{1,2}\s+\w+\s+\d{4}\s+\d{2}:\d{2}:\d{2}\s+GMT)/\<close>\<close>

definition date_rx :: "atom list" where
  "date_rx =
     [(is_digit, 1, Some 2), (is_space, 1, None), (is_word, 1, None), (is_space, 1, None),
      (is_digit, 4, Some 4), (is_space, 1, None),
      (is_digit, 2, Some 2), lit CHR '':'', (is_digit, 2, Some 2), lit CHR '':'',
      (is_digit, 2, Some 2), (is_space, 1, None)] @ map lit ''GMT''"

section \<open>loginAndGetSession\<close>

text \<open>
  What the upstream answers to the login: \<open>fetch\<close> throws or resolves to a response
  with a status, a body whose \<open>json()\<close> throws or yields data in which
  \<open>data.createSession.errorAttributes\<close> is truthy or not, and the value of the
  \<open>set-cookie\<close> header, if any.
\<close>

record login_http =
  login_status :: nat
  login_json :: "thrown + bool"
  set_cookie :: "string option"

text \<open>
  \<open>date_parse\<close> stands for \<open>new Date(s).getTime()\<close>, \<open>None\<close> for NaN; \<open>now\<close> is the
  reading of \<open>Date.now()\<close> in the function. The result \<open>None\<close> is null, and
  \<open>Some (cookie, expiresAt)\<close> the object returned.
\<close>

definition loginAndGetSession ::
  "(string \<Rightarrow> string \<Rightarrow> thrown + login_http) \<Rightarrow> (string \<Rightarrow> int option) \<Rightarrow> int \<Rightarrow>
   string \<Rightarrow> string \<Rightarrow> (string \<times> int) option" where
  "loginAndGetSession reply date_parse now email_arg password_arg =
     (case reply email_arg password_arg of
        Inl t \<Rightarrow> None
      | Inr loginResponse \<Rightarrow>
          if \<not> response_ok (login_status loginResponse) then None
          else (case login_json loginResponse of
                  Inl t \<Rightarrow> None
                | Inr errorAttributes \<Rightarrow>
                    if errorAttributes then None
                    else if \<not> truthy (set_cookie loginResponse) then None
                    else (let setCookieHeaders = the (set_cookie loginResponse);
                              fallback = now + 23 * 60 * 60 * 1000
                          in case rx_match session_rx setCookieHeaders of
                               None \<Rightarrow> None
                             | Some sessionMatch \<Rightarrow>
                                 (let sessionCookie =
                                        ''_easyorder_session='' @ drop 19 sessionMatch;
                                      expires =
                                        (case indexOf setCookieHeaders ''_easyorder_session='' of
                                           None \<Rightarrow> fallback
                                         | Some sessionCookieIndex \<Rightarrow>
                                             (let afterSessionCookie =
                                                    drop sessionCookieIndex setCookieHeaders
                                              in case rx_match date_rx afterSessionCookie of
                                                   None \<Rightarrow> fallback
                                                 | Some expiresString \<Rightarrow>
                                                     (case date_parse expiresString of
                                                        None \<Rightarrow> fallback
                                                      | Some t \<Rightarrow> t - 60 * 60 * 1000)))
                                  in Some (sessionCookie, expires)))))"

section \<open>Numbers read from strings\<close>

text \<open>The value of a digit of a radix up to 16, in either case of the letters.\<close>

definition digit_table :: "(char \<times> nat) list" where
  "digit_table = zip ''0123456789abcdef'' [0 ..< 16] @ zip ''ABCDEF'' [10 ..< 16]"

definition digit_val :: "char \<Rightarrow> nat" where
  "digit_val c = (case map_of digit_table c of Some v \<Rightarrow> v | None \<Rightarrow> 0)"

definition is_hex_digit :: "char \<Rightarrow> bool" where
  "is_hex_digit c = (c \<in> set ''0123456789abcdefABCDEF'')"

definition digits_val :: "nat \<Rightarrow> string \<Rightarrow> nat" where
  "digits_val radix ds = foldl (\<lambda>acc c. radix * acc + digit_val c) 0 ds"

text \<open>
  \<open>parseInt(s)\<close> with no radix: leading white space is skipped, a sign is read, the
  prefix \<open>0x\<close> or \<open>0X\<close> selects radix 16, and the longest run of digits of the radix
  is the value. \<open>None\<close> is NaN.
\<close>

definition parseInt :: "string \<Rightarrow> int option" where
  "parseInt s =
     (let s1 = dropWhile is_space s;
          sgn = (if startsWith s1 ''-'' then - 1 else (1::int));
          s2 = (if startsWith s1 ''-'' \<or> startsWith s1 ''+'' then drop 1 s1 else s1);
          hex = (startsWith s2 ''0x'' \<or> startsWith s2 ''0X'');
          s3 = (if hex then drop 2 s2 else s2);
          ds = takeWhile (if hex then is_hex_digit else is_digit) s3
      in if ds = [] then None
         else Some (sgn * int (digits_val (if hex then 16 else 10) ds)))"

text \<open>
  \<open>Number(s)\<close> on the parts of the formatted date: white space around the text is
  dropped, the empty text is 0 and a run of decimal digits is its value. Every other
  text is \<open>None\<close> here: the other numeric literals of JavaScript (signs, fractions,
  exponents, other radices, \<open>Infinity\<close>) are not modelled, since a part of a date
  between two hyphens is a run of digits.
\<close>

definition Number_of :: "string \<Rightarrow> int option" where
  "Number_of s =
     (let t = rev (dropWhile is_space (rev (dropWhile is_space s)))
      in if list_all is_digit t then Some (int (digits_val 10 t)) else None)"

section \<open>The Date object\<close>

text \<open>
  The functions of ECMA-262 (Time Values and Time Range, Date constructor,
  \<open>toISOString\<close>) that the source uses, on integers. \<open>YearFromDay\<close> is the largest
  year whose first day is not after the day; it is found by counting up from a year
  that is not after it.
\<close>

definition msPerDay :: int where
  "msPerDay = 86400000"

definition DaysInYear :: "int \<Rightarrow> int" where
  "DaysInYear y =
     (if y mod 4 \<noteq> 0 then 365 else if y mod 100 \<noteq> 0 then 366
      else if y mod 400 \<noteq> 0 then 365 else 366)"

definition DayFromYear :: "int \<Rightarrow> int" where
  "DayFromYear y =
     365 * (y - 1970) + (y - 1969) div 4 - (y - 1901) div 100 + (y - 1601) div 400"

function year_up :: "int \<Rightarrow> int \<Rightarrow> int" where
  "year_up dn y = (if DayFromYear (y + 1) \<le> dn then year_up dn (y + 1) else y)"
  by pat_completeness auto
termination
proof (relation "measure (\<lambda>(dn, y). nat (dn - DayFromYear y))")
  show "wf (measure (\<lambda>(dn, y). nat (dn - DayFromYear y)))"
    by simp
next
  fix dn y :: int
  assume le: "DayFromYear (y + 1) \<le> dn"
  have gen: "365 * (y - 1970) + a - b + c < 365 * (y + 1 - 1970) + a' - b' + c'"
    if "a \<le> a'" and "b' \<le> b + 1" and "c \<le> c'" for a b c a' b' c' :: int
    using that by simp
  have 1: "(y - 1969) div 4 \<le> (y + 1 - 1969) div 4" by (rule zdiv_mono1) simp_all
  have 2: "(y + 1 - 1901) div 100 \<le> (y - 1901) div 100 + 1" by linarith
  have 3: "(y - 1601) div 400 \<le> (y + 1 - 1601) div 400" by (rule zdiv_mono1) simp_all
  have "DayFromYear y < DayFromYear (y + 1)"
    unfolding DayFromYear_def by (rule gen [OF 1 2 3])
  with le show "((dn, y + 1), (dn, y)) \<in> measure (\<lambda>(dn, y). nat (dn - DayFromYear y))"
    by simp
qed

declare year_up.simps [simp del]

definition YearFromDay :: "int \<Rightarrow> int" where
  "YearFromDay dn =
     year_up dn (1970 + (if 0 \<le> dn then dn div 366 else dn div 365))"

definition InLeapYear :: "int \<Rightarrow> int" where
  "InLeapYear y = (if DaysInYear y = 366 then 1 else 0)"

text \<open>The day within the year on which month \<open>mn\<close> (0 to 11) starts.\<close>

definition month_start :: "int \<Rightarrow> int \<Rightarrow> int" where
  "month_start leap mn =
     (if mn = 0 then 0 else if mn = 1 then 31 else if mn = 2 then 59 + leap
      else if mn = 3 then 90 + leap else if mn = 4 then 120 + leap
      else if mn = 5 then 151 + leap else if mn = 6 then 181 + leap
      else if mn = 7 then 212 + leap else if mn = 8 then 243 + leap
      else if mn = 9 then 273 + leap else if mn = 10 then 304 + leap
      else 334 + leap)"

text \<open>The month (0 to 11) of the day \<open>d\<close> within a year, by the table of MonthFromTime.\<close>

definition month_of_day :: "int \<Rightarrow> int \<Rightarrow> int" where
  "month_of_day leap d =
     (if d < 31 then 0 else if d < 59 + leap then 1 else if d < 90 + leap then 2
      else if d < 120 + leap then 3 else if d < 151 + leap then 4
      else if d < 181 + leap then 5 else if d < 212 + leap then 6
      else if d < 243 + leap then 7 else if d < 273 + leap then 8
      else if d < 304 + leap then 9 else if d < 334 + leap then 10 else 11)"

definition MonthFromDay :: "int \<Rightarrow> int" where
  "MonthFromDay dn =
     (let y = YearFromDay dn in month_of_day (InLeapYear y) (dn - DayFromYear y))"

definition DateFromDay :: "int \<Rightarrow> int" where
  "DateFromDay dn =
     (let y = YearFromDay dn
      in dn - DayFromYear y - month_start (InLeapYear y) (MonthFromDay dn) + 1)"

definition MakeDay :: "int \<Rightarrow> int \<Rightarrow> int \<Rightarrow> int" where
  "MakeDay year month dt =
     (let ym = year + month div 12; mn = month mod 12
      in DayFromYear ym + month_start (InLeapYear ym) mn + dt - 1)"

definition TimeClip :: "int \<Rightarrow> int option" where
  "TimeClip t = (if \<bar>t\<bar> > 8640000000000000 then None else Some t)"

text \<open>
  \<open>new Date(year, month, date)\<close>: the fields are read in the local time of the
  runtime, which is \<open>tza\<close> milliseconds ahead of UTC. An argument that is NaN or
  undefined (\<open>None\<close>) gives the invalid date (\<open>None\<close>).
\<close>

definition new_Date :: "int \<Rightarrow> int option \<Rightarrow> int option \<Rightarrow> int option \<Rightarrow> int option" where
  "new_Date tza year month dt =
     (case (year, month, dt) of
        (Some y, Some m, Some d) \<Rightarrow>
          (let yr = (if 0 \<le> y \<and> y \<le> 99 then 1900 + y else y)
           in TimeClip (MakeDay yr m d * msPerDay - tza))
      | _ \<Rightarrow> None)"

definition pad_start :: "nat \<Rightarrow> string \<Rightarrow> string" where
  "pad_start n s = replicate (n - length s) CHR ''0'' @ s"

definition iso_year :: "int \<Rightarrow> string" where
  "iso_year y =
     (if 0 \<le> y \<and> y \<le> 9999 then pad_start 4 (show_nat (nat y))
      else (if y < 0 then ''-'' else ''+'') @ pad_start 6 (show_nat (nat \<bar>y\<bar>)))"

text \<open>\<open>toISOString()\<close>: throws a RangeError on the invalid date.\<close>

definition toISOString :: "int option \<Rightarrow> thrown + string" where
  "toISOString tv =
     (case tv of
        None \<Rightarrow> Inl (JsError ''Invalid time value'')
      | Some t \<Rightarrow>
          (let dn = t div msPerDay; ms = t mod msPerDay
           in Inr (iso_year (YearFromDay dn) @ ''-''
                   @ pad_start 2 (show_nat (nat (MonthFromDay dn + 1))) @ ''-''
                   @ pad_start 2 (show_nat (nat (DateFromDay dn))) @ ''T''
                   @ pad_start 2 (show_nat (nat (ms div 3600000))) @ '':''
                   @ pad_start 2 (show_nat (nat (ms div 60000 mod 60))) @ '':''
                   @ pad_start 2 (show_nat (nat (ms div 1000 mod 60))) @ ''.''
                   @ pad_start 3 (show_nat (nat (ms mod 1000))) @ ''Z'')))"

section \<open>The date selector (getDaysAhead and the head of getLunch)\<close>

text \<open>
  \<open>intl_hour tz\<close> and \<open>intl_date tz\<close> stand for the two \<open>Intl.DateTimeFormat\<close> calls
  at the current instant: the hour (\<open>en-US\<close>, \<open>hour12: false\<close>) and the date
  (\<open>en-CA\<close>, year, 2-digit month, 2-digit day) in the time zone \<open>tz\<close>; the constructor
  throws a RangeError on a time zone it does not know.
\<close>

definition getDaysAhead :: "(string \<Rightarrow> thrown + string) \<Rightarrow> string option \<Rightarrow> thrown + int" where
  "getDaysAhead intl_hour tz_env =
     (let timezone = or_else tz_env ''America/Los_Angeles''
      in case intl_hour timezone of
           Inl t \<Rightarrow> Inl t
         | Inr sfTime \<Rightarrow>
             (let hour = parseInt sfTime
              in Inr (if (case hour of Some h \<Rightarrow> h \<ge> 13 | None \<Rightarrow> False) then 1 else 0)))"

text \<open>Element \<open>i\<close> of an array of numbers, \<open>None\<close> when it is undefined or NaN.\<close>

definition elem :: "int option list \<Rightarrow> nat \<Rightarrow> int option" where
  "elem xs i = (if i < length xs then xs ! i else None)"

text \<open>
  Lines 308 to 322 of getLunch: the target date as text. \<open>split\<close> always yields at
  least one part, which is element 0 of the array.
\<close>

definition targetDateStr_of ::
  "(string \<Rightarrow> thrown + string) \<Rightarrow> int \<Rightarrow> string option \<Rightarrow> int \<Rightarrow> thrown + string" where
  "targetDateStr_of intl_date tza tz_env daysAhead =
     (let timezone = or_else tz_env ''America/Los_Angeles''
      in case intl_date timezone of
           Inl t \<Rightarrow> Inl t
         | Inr currentDateInTz \<Rightarrow>
             (let nums = map Number_of (split CHR ''-'' currentDateInTz);
                  year = elem nums 0; month = elem nums 1; day = elem nums 2;
                  targetDate = new_Date tza year (map_option (\<lambda>m. m - 1) month)
                                 (map_option (\<lambda>d. d + daysAhead) day)
              in case toISOString targetDate of
                   Inl t \<Rightarrow> Inl t
                 | Inr isoText \<Rightarrow> Inr (hd (split CHR ''T'' isoText))))"

section \<open>getLunch\<close>

text \<open>
  Everything outside the program that one request reads: the \<open>Authorization\<close>
  header, the environment variables, the formatter and the local offset of the
  runtime, the readings of \<open>Date.now()\<close> in getCachedSession, loginAndGetSession
  and storeCachedSession, the date parser, and the upstream. \<open>lunch_reply n\<close> is the
  upstream's answer to the delivery query number \<open>n\<close> of the request (from 0).
  The query and the mutation of the database are taken to return, and the messages
  written to the console are left out.
\<close>

record world =
  authorization :: "string option"
  FORKABLE_AUTH_TOKEN :: "string option"
  FORKABLE_EMAIL :: "string option"
  FORKABLE_PASSWORD :: "string option"
  TIMEZONE :: "string option"
  intl_hour :: "string \<Rightarrow> thrown + string"
  intl_date :: "string \<Rightarrow> thrown + string"
  local_tza :: int
  now_get :: int
  now_login :: int
  now_store :: int
  date_parse :: "string \<Rightarrow> int option"
  login_reply :: "string \<Rightarrow> string \<Rightarrow> thrown + login_http"
  lunch_reply :: "nat \<Rightarrow> string \<Rightarrow> string \<Rightarrow> thrown + lunch_http"

text \<open>
  The body of a response: plain text, or \<open>JSON.stringify({ error: msg })\<close>.
\<close>

datatype payload = Plain string | JsonError string

record response =
  status_code :: nat
  content_type :: string
  body :: payload

text \<open>
  The calls a request makes, in order: loginAndGetSession with the email and the
  password, fetchLunchWithSession with the cookie and the date, storeCachedSession
  with the email, the cookie and the expiry.
\<close>

datatype event = Login string string | Query string string | Put string string int

record outcome =
  resp :: response
  store :: db
  calls :: "event list"

definition text_response :: "string \<Rightarrow> response" where
  "text_response s = \<lparr>status_code = 200, content_type = ''text/plain'', body = Plain s\<rparr>"

definition json_error :: "nat \<Rightarrow> string \<Rightarrow> response" where
  "json_error st msg =
     \<lparr>status_code = st, content_type = ''application/json'', body = JsonError msg\<rparr>"

text \<open>The \<open>catch\<close> of getLunch.\<close>

definition unexpected :: "thrown \<Rightarrow> response" where
  "unexpected t =
     json_error 500 (''Unexpected error: ''
                      @ (case t of JsError msg \<Rightarrow> msg | NonError \<Rightarrow> ''Unknown error''))"

text \<open>\<open>"error" in result && result.status === 401\<close>\<close>

fun is_401 :: "lunch_result \<Rightarrow> bool" where
  "is_401 (Failure e) = (status e = Some 401)"
| "is_401 (Delivered r) = False"

text \<open>Lines 377 to 384: the delivery query whose result is returned.\<close>

definition final_fetch :: "world \<Rightarrow> db \<Rightarrow> string \<Rightarrow> string \<Rightarrow> event list \<Rightarrow> nat \<Rightarrow> outcome" where
  "final_fetch w d targetDateStr sessionCookie tr n =
     (case fetchLunchWithSession (lunch_reply w n sessionCookie targetDateStr) targetDateStr of
        Inl t \<Rightarrow>
          \<lparr>resp = unexpected t, store = d, calls = tr @ [Query sessionCookie targetDateStr]\<rparr>
      | Inr result \<Rightarrow>
          \<lparr>resp = text_response (formatLunchResponse result), store = d,
           calls = tr @ [Query sessionCookie targetDateStr]\<rparr>)"

text \<open>Lines 354 to 384: the login, if needed, and the query after it.\<close>

definition login_if_needed ::
  "world \<Rightarrow> db \<Rightarrow> string \<Rightarrow> string \<Rightarrow> string \<Rightarrow> string \<Rightarrow> bool \<Rightarrow> event list \<Rightarrow> nat \<Rightarrow> outcome" where
  "login_if_needed w d em pw targetDateStr sessionCookie shouldLogin tr n =
     (if shouldLogin
      then (case loginAndGetSession (login_reply w) (date_parse w) (now_login w) em pw of
              None \<Rightarrow>
                \<lparr>resp = json_error 500 ''Failed to login'', store = d,
                 calls = tr @ [Login em pw]\<rparr>
            | Some sessionData \<Rightarrow>
                (let sessionCookie' = fst sessionData;
                     d' = storeCachedSession (now_store w) d em sessionCookie' (snd sessionData)
                 in final_fetch w d' targetDateStr sessionCookie'
                      (tr @ [Login em pw, Put em sessionCookie' (snd sessionData)]) n))
      else final_fetch w d targetDateStr sessionCookie tr n)"

text \<open>Lines 324 to 384: the cached session, if any, is tried first.\<close>

definition with_session :: "world \<Rightarrow> db \<Rightarrow> string \<Rightarrow> string \<Rightarrow> string \<Rightarrow> outcome" where
  "with_session w d em pw targetDateStr =
     (case getCachedSession (now_get w) d em of
        Some cachedSession \<Rightarrow>
          (let sessionCookie = cookie cachedSession
           in case fetchLunchWithSession (lunch_reply w 0 sessionCookie targetDateStr)
                     targetDateStr of
                Inl t \<Rightarrow>
                  \<lparr>resp = unexpected t, store = d,
                   calls = [Query sessionCookie targetDateStr]\<rparr>
              | Inr result \<Rightarrow>
                  if is_401 result
                  then login_if_needed w d em pw targetDateStr sessionCookie True
                         [Query sessionCookie targetDateStr] 1
                  else \<lparr>resp = text_response (formatLunchResponse result), store = d,
                        calls = [Query sessionCookie targetDateStr]\<rparr>)
      | None \<Rightarrow> login_if_needed w d em pw targetDateStr [] True [] 0)"

definition getLunch :: "world \<Rightarrow> db \<Rightarrow> outcome" where
  "getLunch w d =
     (let authToken = authorization w; expectedToken = FORKABLE_AUTH_TOKEN w
      in if \<not> truthy expectedToken \<or> authToken \<noteq> Some (''Bearer '' @ the expectedToken)
         then \<lparr>resp = json_error 401 ''Unauthorized'', store = d, calls = []\<rparr>
         else if \<not> truthy (FORKABLE_EMAIL w) \<or> \<not> truthy (FORKABLE_PASSWORD w)
         then \<lparr>resp = json_error 500 ''Missing credentials'', store = d, calls = []\<rparr>
         else (let em = the (FORKABLE_EMAIL w); pw = the (FORKABLE_PASSWORD w)
               in case getDaysAhead (intl_hour w) (TIMEZONE w) of
                    Inl t \<Rightarrow> \<lparr>resp = unexpected t, store = d, calls = []\<rparr>
                  | Inr daysAhead \<Rightarrow>
                      (case targetDateStr_of (intl_date w) (local_tza w) (TIMEZONE w) daysAhead of
                         Inl t \<Rightarrow> \<lparr>resp = unexpected t, store = d, calls = []\<rparr>
                       | Inr targetDateStr \<Rightarrow> with_session w d em pw targetDateStr)))"

section \<open>Notions of the specification\<close>







text \<open>
  The texts a sequence of atoms denotes: the text is cut into one piece for each
  atom, each piece of a length the atom allows and of characters of its class.
\<close>

fun rx_matches :: "atom list \<Rightarrow> string \<Rightarrow> bool" where
  "rx_matches [] m = (m = [])"
| "rx_matches (a # as) m =
     (case a of (P, lo, hi) \<Rightarrow>
        list_ex (\<lambda>k. lo \<le> k \<and> (case hi of None \<Rightarrow> True | Some h \<Rightarrow> k \<le> h)
                     \<and> list_all P (take k m) \<and> rx_matches as (drop k m))
          [0 ..< Suc (length m)])"

text \<open>The text \<open>m\<close> stands in \<open>s\<close> at position \<open>i\<close>.\<close>

definition occurs_at :: "string \<Rightarrow> nat \<Rightarrow> string \<Rightarrow> bool" where
  "occurs_at m i s = (i + length m \<le> length s \<and> take (length m) (drop i s) = m)"

text \<open>The number of calls of one kind in a trace.\<close>

fun is_login :: "event \<Rightarrow> bool" where
  "is_login (Login e p) = True"
| "is_login ev = False"

fun is_query :: "event \<Rightarrow> bool" where
  "is_query (Query c t) = True"
| "is_query ev = False"


definition count_of :: "(event \<Rightarrow> bool) \<Rightarrow> event list \<Rightarrow> nat" where
  "count_of P tr = length (filter P tr)"

text \<open>One entry as the specification writes it.\<close>

definition render_entry :: "lunch_entry \<Rightarrow> string" where
  "render_entry en = restaurant en @ '': '' @ join '', '' (items en)"

text \<open>
  A request that reaches the session protocol: the bearer token is the configured
  one, the email \<open>em\<close> and the password \<open>pw\<close> are configured, and the date selector
  yields the target date \<open>td\<close>.
\<close>

definition accepted :: "world \<Rightarrow> string \<Rightarrow> string \<Rightarrow> string \<Rightarrow> bool" where
  "accepted w em pw td =
     (truthy (FORKABLE_AUTH_TOKEN w) \<and>
      authorization w = Some (''Bearer '' @ the (FORKABLE_AUTH_TOKEN w)) \<and>
      FORKABLE_EMAIL w = Some em \<and> em \<noteq> [] \<and>
      FORKABLE_PASSWORD w = Some pw \<and> pw \<noteq> [] \<and>
      (case getDaysAhead (intl_hour w) (TIMEZONE w) of
         Inl t \<Rightarrow> False
       | Inr daysAhead \<Rightarrow>
           targetDateStr_of (intl_date w) (local_tza w) (TIMEZONE w) daysAhead = Inr td))"

text \<open>
  The upstream operations as the request sees them, and the response that the
  result of a delivery query becomes when it is the final one.
\<close>

definition login_of :: "world \<Rightarrow> string \<Rightarrow> string \<Rightarrow> (string \<times> int) option" where
  "login_of w em pw = loginAndGetSession (login_reply w) (date_parse w) (now_login w) em pw"

definition query_of :: "world \<Rightarrow> nat \<Rightarrow> string \<Rightarrow> string \<Rightarrow> thrown + lunch_result" where
  "query_of w n c td = fetchLunchWithSession (lunch_reply w n c td) td"

definition reply_response :: "thrown + lunch_result \<Rightarrow> response" where
  "reply_response q =
     (case q of Inl t \<Rightarrow> unexpected t | Inr result \<Rightarrow> text_response (formatLunchResponse result))"

text \<open>
  The name of the session cookie with its equals sign, and the part of a header
  that the source scans for a date: the header from the first occurrence of that
  name on.
\<close>

definition cookie_name :: string where
  "cookie_name = ''_easyorder_session=''"


section \<open>Example data\<close>

text \<open>
  A table with a session for \<open>a@x\<close> that expires at 100 and one for \<open>b@x\<close> that
  expires at 900.
\<close>

definition two_accounts_db :: db where
  "two_accounts_db = \<lparr>rows = [\<lparr>doc_id = 0, email = ''a@x'', cookie = ''old'', expiresAt = 100, createdAt = 1\<rparr>,
                  \<lparr>doc_id = 1, email = ''b@x'', cookie = ''live'', expiresAt = 900, createdAt = 2\<rparr>],
          next_id = 2\<rparr>"


text \<open>Deliveries for two days, as the upstream sends them.\<close>

definition ex_lunch :: lunch_data where
  "ex_lunch =
     \<lparr>errors = None,
      myDeliveries = Some
        [\<lparr>forDeliveryAt = Some ''2025-01-02T12:00:00-08:00'',
          orders = Some [\<lparr>displayName = Some ''Cafe A'',
                           pieces = Some [\<lparr>name = Some ''Sandwich''\<rparr>, \<lparr>name = Some ''Soup''\<rparr>]\<rparr>]\<rparr>,
         \<lparr>forDeliveryAt = Some ''2025-01-03T12:00:00-08:00'',
          orders = Some [\<lparr>displayName = Some ''Cafe B'',
                           pieces = Some [\<lparr>name = Some ''Salad''\<rparr>]\<rparr>]\<rparr>]\<rparr>"

text \<open>
  A login response: a session cookie that expires on 1 January 2031, and the date
  parser on the one date text of the example.
\<close>

definition ex_header :: string where
  "ex_header =
     ''_easyorder_session=abc123; path=/; expires=Wed, 01 Jan 2031 00:00:00 GMT; HttpOnly''"

definition ex_login_http :: "string \<Rightarrow> login_http" where
  "ex_login_http h = \<lparr>login_status = 200, login_json = Inr False, set_cookie = Some h\<rparr>"

definition ex_parse :: "string \<Rightarrow> int option" where
  "ex_parse s = (if s = ''01 Jan 2031 00:00:00 GMT'' then Some 1924992000000 else None)"





text \<open>
  A request at 09 hours of 2 January 2025, with the right bearer token. The upstream
  answers the first delivery query with status \<open>st\<close> and the second with the
  deliveries; the login succeeds.
\<close>

definition ex_world :: "nat \<Rightarrow> world" where
  "ex_world st =
     \<lparr>authorization = Some ''Bearer secret'',
      FORKABLE_AUTH_TOKEN = Some ''secret'',
      FORKABLE_EMAIL = Some ''a@x'',
      FORKABLE_PASSWORD = Some ''pw'',
      TIMEZONE = None,
      intl_hour = (\<lambda>tz. Inr ''09''),
      intl_date = (\<lambda>tz. Inr ''2025-01-02''),
      local_tza = 0,
      now_get = 500,
      now_login = 510,
      now_store = 520,
      date_parse = ex_parse,
      login_reply = (\<lambda>e p. Inr (ex_login_http ex_header)),
      lunch_reply = (\<lambda>n c t. if n = 0 then Inr \<lparr>lunch_status = st, lunch_json = Inl NonError\<rparr>
                              else Inr \<lparr>lunch_status = 200, lunch_json = Inr ex_lunch\<rparr>)\<rparr>"

text \<open>
  The same request when the upstream cannot be reached, so that \<open>fetch\<close> throws on
  every delivery query; and when the login response carries no session cookie, so
  that the login fails.
\<close>

definition ex_world_down :: world where
  "ex_world_down = (ex_world 200)\<lparr>lunch_reply := (\<lambda>n c t. Inl (JsError ''fetch failed''))\<rparr>"

definition ex_world_nologin :: world where
  "ex_world_nologin =
     (ex_world 401)\<lparr>login_reply := (\<lambda>e p. Inr (ex_login_http ''theme=dark; path=/''))\<rparr>"

text \<open>A table with a live session for \<open>a@x\<close> at time 500.\<close>

definition live_db :: db where
  "live_db =
     \<lparr>rows = [\<lparr>doc_id = 0, email = ''a@x'', cookie = ''_easyorder_session=stale'',
               expiresAt = 900, createdAt = 1\<rparr>],
      next_id = 1\<rparr>"

section \<open>The session cache\<close>

lemma first_None_iff: "first xs = None \<longleftrightarrow> xs = []"
  by (cases xs) simp_all

lemma first_Some_mem: "first xs = Some x \<Longrightarrow> x \<in> set xs"
  by (cases xs) auto

lemma first_filter_Some: "first (filter P xs) = Some x \<Longrightarrow> P x \<and> x \<in> set xs"
  using first_Some_mem [of "filter P xs" x] by simp

text \<open>
  Claim C4. Whatever the table holds and whatever the clock reads, a document that
  getCachedSession returns is a document of the table for the email asked for and its
  \<open>expiresAt\<close> is not less than or equal to the clock; and getCachedSession returns
  null exactly when every document of the email has expired, which includes the case
  that there is none: the caller sees the same null in both cases.
\<close>

theorem getCachedSession_unexpired:
  "(\<forall>r. getCachedSession now d e = Some r \<longrightarrow>
        r \<in> set (rows d) \<and> email r = e \<and> \<not> expiresAt r \<le> now) \<and>
   (getCachedSession now d e = None \<longleftrightarrow>
      (\<forall>r \<in> set (rows d). email r = e \<longrightarrow> expiresAt r \<le> now))"
proof (intro conjI allI impI)
  fix r assume "getCachedSession now d e = Some r"
  then have "now < expiresAt r \<and> r \<in> set (by_email e (rows d))"
    unfolding getCachedSession_def by (rule first_filter_Some)
  then show "r \<in> set (rows d)" and "email r = e" and "\<not> expiresAt r \<le> now"
    by (auto simp: by_email_def)
next
  show "getCachedSession now d e = None \<longleftrightarrow>
      (\<forall>r \<in> set (rows d). email r = e \<longrightarrow> expiresAt r \<le> now)"
    unfolding getCachedSession_def first_None_iff by_email_def
    by (auto simp: filter_empty_conv not_less)
qed

text \<open>
  At time 500 the expired session of \<open>a@x\<close> and the missing one of \<open>c@x\<close> both
  give null, the live session of \<open>b@x\<close> does not.
\<close>

theorem getCachedSession_unexpired_witness:
  "getCachedSession 500 two_accounts_db ''a@x'' = None \<and> getCachedSession 500 two_accounts_db ''c@x'' = None \<and>
   getCachedSession 500 two_accounts_db ''b@x'' \<noteq> None"
proof -
  have a: "\<forall>r \<in> set (rows two_accounts_db). email r = ''a@x'' \<longrightarrow> expiresAt r \<le> 500"
    by (simp add: two_accounts_db_def)
  have c: "\<forall>r \<in> set (rows two_accounts_db). email r = ''c@x'' \<longrightarrow> expiresAt r \<le> 500"
    by (simp add: two_accounts_db_def)
  have b: "\<not> (\<forall>r \<in> set (rows two_accounts_db). email r = ''b@x'' \<longrightarrow> expiresAt r \<le> 500)"
    by (simp add: two_accounts_db_def)
  show ?thesis
    using a b c getCachedSession_unexpired [of 500 two_accounts_db "''a@x''"]
      getCachedSession_unexpired [of 500 two_accounts_db "''c@x''"]
      getCachedSession_unexpired [of 500 two_accounts_db "''b@x''"]
    by blast
qed

lemma by_email_append: "by_email e (xs @ ys) = by_email e xs @ by_email e ys"
  by (simp add: by_email_def)

lemma by_email_filter: "by_email e (filter P xs) = filter P (by_email e xs)"
  by (induction xs) (simp_all add: by_email_def)

lemma by_email_store:
  assumes "length (by_email e (rows d)) \<le> 1"
  shows "by_email e (rows (storeCachedSession now d e c ex)) =
         [\<lparr>doc_id = next_id d, email = e, cookie = c, expiresAt = ex, createdAt = now\<rparr>]"
proof (cases "by_email e (rows d)")
  case Nil
  then show ?thesis
    by (simp add: storeCachedSession_def db_insert_def by_email_append)
       (simp add: by_email_def)
next
  case (Cons r rs)
  with assms have rs: "rs = []" by simp
  with Cons show ?thesis
    by (simp add: storeCachedSession_def db_insert_def db_delete_def by_email_append
          by_email_filter)
       (simp add: by_email_def)
qed

lemma by_email_single: "by_email e' [r] = (if email r = e' then [r] else [])"
  by (simp add: by_email_def)

lemma by_email_store_other:
  assumes "e' \<noteq> e"
  shows "length (by_email e' (rows (storeCachedSession now d e c ex)))
         \<le> length (by_email e' (rows d))"
proof (cases "first (by_email e (rows d))")
  case None
  with assms show ?thesis
    by (simp add: storeCachedSession_def db_insert_def by_email_append by_email_single)
next
  case (Some r)
  with assms show ?thesis
    by (simp add: storeCachedSession_def db_insert_def db_delete_def by_email_append
          by_email_filter by_email_single)
qed

lemma distinct_emails_iff:
  "distinct (map email rs) \<longleftrightarrow> (\<forall>e. length (by_email e rs) \<le> 1)"
proof (induction rs)
  case Nil
  show ?case by (simp add: by_email_def)
next
  case (Cons r rs)
  have mem: "email r \<in> email ` set rs \<longleftrightarrow> by_email (email r) rs \<noteq> []"
  proof
    assume "email r \<in> email ` set rs"
    then obtain x where "x \<in> set rs" and "email x = email r" by auto
    then show "by_email (email r) rs \<noteq> []"
      by (auto simp: by_email_def filter_empty_conv)
  next
    assume "by_email (email r) rs \<noteq> []"
    then obtain x where "x \<in> set rs" and "email x = email r"
      by (auto simp: by_email_def filter_empty_conv)
    then show "email r \<in> email ` set rs" by (metis imageI)
  qed
  show ?case
  proof
    assume "distinct (map email (r # rs))"
    with Cons mem show "\<forall>e. length (by_email e (r # rs)) \<le> 1"
      by (auto simp: by_email_def)
  next
    assume a: "\<forall>e. length (by_email e (r # rs)) \<le> 1"
    then have "length (by_email (email r) (r # rs)) \<le> 1" by blast
    then have "by_email (email r) rs = []" by (simp add: by_email_def)
    moreover have "\<forall>e. length (by_email e rs) \<le> 1"
    proof
      fix e
      have "length (by_email e rs) \<le> length (by_email e (r # rs))"
        by (simp add: by_email_def)
      with a show "length (by_email e rs) \<le> 1" using le_trans by blast
    qed
    ultimately show "distinct (map email (r # rs))"
      using Cons mem by simp
  qed
qed

lemma store_keeps_invariant:
  assumes "one_per_account d"
  shows "one_per_account (storeCachedSession now d e c ex)"
proof -
  from assms have inv: "\<forall>e. length (by_email e (rows d)) \<le> 1"
    by (simp add: one_per_account_def distinct_emails_iff)
  have "length (by_email e' (rows (storeCachedSession now d e c ex))) \<le> 1" for e'
  proof (cases "e' = e")
    case True
    with inv show ?thesis by (simp add: by_email_store)
  next
    case False
    from by_email_store_other [OF False] inv show ?thesis
      using le_trans by blast
  qed
  then show ?thesis
    by (simp add: one_per_account_def distinct_emails_iff)
qed

lemma run_ops_keeps_invariant:
  "one_per_account d \<Longrightarrow> one_per_account (run_ops d ops)"
  unfolding run_ops_def
proof (induction ops arbitrary: d)
  case Nil
  then show ?case by simp
next
  case (Cons x xs)
  have "one_per_account (run_op d x)"
    using Cons.prems by (cases x) (simp_all add: store_keeps_invariant)
  then show ?case using Cons.IH by simp
qed

text \<open>
  Claim C6. A table with at most one document per email still has at most one per
  email after any sequence of get and put operations, and a put on such a table
  leaves exactly the new document for its email: the old one is removed, the new
  one inserted. A table that starts empty and is changed by these operations only
  always has at most one document per email.
\<close>

theorem storeCachedSession_replaces:
  "(one_per_account d \<longrightarrow>
      one_per_account (run_ops d ops) \<and>
      by_email e (rows (storeCachedSession now d e c ex)) =
        [\<lparr>doc_id = next_id d, email = e, cookie = c, expiresAt = ex, createdAt = now\<rparr>]) \<and>
   one_per_account (run_ops empty_db ops)"
proof (intro conjI impI)
  assume inv: "one_per_account d"
  then show "one_per_account (run_ops d ops)" by (rule run_ops_keeps_invariant)
  from inv have "length (by_email e (rows d)) \<le> 1"
    by (simp add: one_per_account_def distinct_emails_iff)
  then show "by_email e (rows (storeCachedSession now d e c ex)) =
        [\<lparr>doc_id = next_id d, email = e, cookie = c, expiresAt = ex, createdAt = now\<rparr>]"
    by (rule by_email_store)
next
  have "one_per_account empty_db" by (simp add: one_per_account_def empty_db_def)
  then show "one_per_account (run_ops empty_db ops)" by (rule run_ops_keeps_invariant)
qed

theorem storeCachedSession_replaces_witness:
  "one_per_account two_accounts_db \<and>
   one_per_account (run_ops two_accounts_db [CachePut 10 ''a@x'' ''t1'' 700, CacheGet 20 ''a@x'', CachePut 30 ''a@x'' ''t2'' 800]) \<and>
   by_email ''a@x'' (rows (storeCachedSession 10 two_accounts_db ''a@x'' ''t1'' 700)) =
     [\<lparr>doc_id = 2, email = ''a@x'', cookie = ''t1'', expiresAt = 700, createdAt = 10\<rparr>]"
proof -
  have inv: "one_per_account two_accounts_db" by (simp add: one_per_account_def two_accounts_db_def)
  have n: "next_id two_accounts_db = 2" by (simp add: two_accounts_db_def)
  from inv n storeCachedSession_replaces [of two_accounts_db "[CachePut 10 ''a@x'' ''t1'' 700, CacheGet 20 ''a@x'', CachePut 30 ''a@x'' ''t2'' 800]" "''a@x''" 10 "''t1''" 700]
  show ?thesis by simp
qed

text \<open>
  Every table that the program can reach from the empty one holds at most one
  document for each email.
\<close>

lemma reachable_one_record: "length (by_email e (rows (run_ops empty_db ops))) \<le> 1"
proof -
  have "one_per_account empty_db" by (simp add: one_per_account_def empty_db_def)
  then have "one_per_account (run_ops empty_db ops)" by (rule run_ops_keeps_invariant)
  then show ?thesis by (simp add: one_per_account_def distinct_emails_iff)
qed

text \<open>
  Claim C5. The tables of the data model hold at most one document for an account.
  On every such table, for every email, cookie and expiry: after storeCachedSession
  the new document is the only one of the email, and getCachedSession at any time
  \<open>t\<close> before the expiry returns it, with exactly the cookie and the expiry stored
  (and null from the expiry on), so that no document stored for the email before
  the put can be returned.
\<close>

theorem put_then_get:
  assumes "length (by_email e (rows d)) \<le> 1"
  shows "by_email e (rows (storeCachedSession now d e c ex)) =
           [\<lparr>doc_id = next_id d, email = e, cookie = c, expiresAt = ex, createdAt = now\<rparr>] \<and>
         getCachedSession t (storeCachedSession now d e c ex) e =
           (if t < ex
            then Some \<lparr>doc_id = next_id d, email = e, cookie = c, expiresAt = ex, createdAt = now\<rparr>
            else None)"
  using by_email_store [OF assms, of now c ex] by (simp add: getCachedSession_def)

text \<open>
  On the table of the example the session \<open>old\<close> of \<open>a@x\<close> expires at 100. After
  the put of \<open>new\<close> at 40, a get at 50 returns the new session and not the old one,
  which was still live then.
\<close>

theorem put_then_get_witness:
  "length (by_email ''a@x'' (rows two_accounts_db)) \<le> 1 \<and>
   getCachedSession 50 two_accounts_db ''a@x'' =
     Some \<lparr>doc_id = 0, email = ''a@x'', cookie = ''old'', expiresAt = 100, createdAt = 1\<rparr> \<and>
   getCachedSession 50 (storeCachedSession 40 two_accounts_db ''a@x'' ''new'' 700) ''a@x'' =
     Some \<lparr>doc_id = 2, email = ''a@x'', cookie = ''new'', expiresAt = 700, createdAt = 40\<rparr> \<and>
   by_email ''a@x'' (rows (storeCachedSession 40 two_accounts_db ''a@x'' ''new'' 700)) =
     [\<lparr>doc_id = 2, email = ''a@x'', cookie = ''new'', expiresAt = 700, createdAt = 40\<rparr>]"
proof -
  have h: "length (by_email ''a@x'' (rows two_accounts_db)) \<le> 1"
    by (simp add: two_accounts_db_def by_email_def)
  have n: "next_id two_accounts_db = 2" by (simp add: two_accounts_db_def)
  have o: "getCachedSession 50 two_accounts_db ''a@x'' =
     Some \<lparr>doc_id = 0, email = ''a@x'', cookie = ''old'', expiresAt = 100, createdAt = 1\<rparr>"
    by (simp add: two_accounts_db_def getCachedSession_def by_email_def)
  from h n o put_then_get [OF h, where t = 50 and now = 40 and c = "''new''" and ex = 700]
  show ?thesis by simp
qed

section \<open>The formatter\<close>

lemma filter_Boolean_render:
  "filter_Boolean (map render_item xs) = map render_entry (filter (\<lambda>en. items en \<noteq> []) xs)"
  by (induction xs) (simp_all add: render_item_def render_entry_def Let_def)

text \<open>
  Claim C9. The formatter renders an error result as the text of its \<open>error\<close> field,
  unchanged; a success with no delivery entry as \<open>No lunch ordered\<close>; and any
  success as follows: the entries whose item list is empty are left out, each
  remaining entry is \<open>restaurant: item, item, ...\<close>, the entries are joined by a
  full stop and a space, and when none remains the text is \<open>No lunch ordered\<close>.
\<close>

theorem formatLunchResponse_renders:
  "formatLunchResponse (Failure e) = error e \<and>
   (success r \<and> lunch r = [] \<longrightarrow> formatLunchResponse (Delivered r) = ''No lunch ordered'') \<and>
   (success r \<longrightarrow>
      formatLunchResponse (Delivered r) =
        (let shown = filter (\<lambda>en. items en \<noteq> []) (lunch r)
         in if shown = [] then ''No lunch ordered''
            else join ''. '' (map render_entry shown)))"
  by (auto simp: filter_Boolean_render Let_def)

theorem formatLunchResponse_renders_witness:
  "formatLunchResponse (Failure \<lparr>error = ''Authentication failed'', status = Some 401\<rparr>) =
     ''Authentication failed'' \<and>
   formatLunchResponse
     (Delivered \<lparr>date = ''2025-01-02'',
                 lunch = [\<lparr>restaurant = ''Cafe A'', items = [''Sandwich'', ''Soup'']\<rparr>,
                          \<lparr>restaurant = ''Cafe B'', items = []\<rparr>,
                          \<lparr>restaurant = ''Cafe C'', items = [''Tea'']\<rparr>],
                 success = True\<rparr>) = ''Cafe A: Sandwich, Soup. Cafe C: Tea''"
  using formatLunchResponse_renders
    [of "\<lparr>error = ''Authentication failed'', status = Some 401\<rparr>"
     "\<lparr>date = ''2025-01-02'',
       lunch = [\<lparr>restaurant = ''Cafe A'', items = [''Sandwich'', ''Soup'']\<rparr>,
                \<lparr>restaurant = ''Cafe B'', items = []\<rparr>,
                \<lparr>restaurant = ''Cafe C'', items = [''Tea'']\<rparr>],
       success = True\<rparr>"]
  by (simp add: render_entry_def)

section \<open>The orchestrator\<close>

lemma getLunch_accepted:
  assumes "accepted w em pw td"
  shows "getLunch w d = with_session w d em pw td"
  using assms
  by (auto simp: accepted_def getLunch_def Let_def split: sum.splits)

lemma final_fetch_eq:
  "final_fetch w d td c tr n =
     \<lparr>resp = reply_response (query_of w n c td), store = d, calls = tr @ [Query c td]\<rparr>"
  by (simp add: final_fetch_def reply_response_def query_of_def split: sum.splits)

lemma login_if_needed_eq:
  "login_if_needed w d em pw td c0 True tr n =
     (case login_of w em pw of
        None \<Rightarrow> \<lparr>resp = json_error 500 ''Failed to login'', store = d,
                  calls = tr @ [Login em pw]\<rparr>
      | Some sd \<Rightarrow>
          \<lparr>resp = reply_response (query_of w n (fst sd) td),
           store = storeCachedSession (now_store w) d em (fst sd) (snd sd),
           calls = tr @ [Login em pw, Put em (fst sd) (snd sd), Query (fst sd) td]\<rparr>)"
  by (simp add: login_if_needed_def login_of_def final_fetch_eq Let_def split: option.splits)

lemma with_session_eq:
  "with_session w d em pw td =
     (case getCachedSession (now_get w) d em of
        None \<Rightarrow> login_if_needed w d em pw td [] True [] 0
      | Some cs \<Rightarrow>
          (case query_of w 0 (cookie cs) td of
             Inl t \<Rightarrow> \<lparr>resp = unexpected t, store = d, calls = [Query (cookie cs) td]\<rparr>
           | Inr result \<Rightarrow>
               if is_401 result
               then login_if_needed w d em pw td (cookie cs) True [Query (cookie cs) td] 1
               else \<lparr>resp = text_response (formatLunchResponse result), store = d,
                     calls = [Query (cookie cs) td]\<rparr>))"
  by (simp add: with_session_def query_of_def Let_def split: option.splits sum.splits)

text \<open>
  The delivery query fails with status 401 exactly when the upstream answers with
  HTTP status 401, or answers with a success status and a body whose errors name
  an authentication failure.
\<close>

lemma fetchLunchWithSession_401:
  "(\<exists>e. fetchLunchWithSession reply td = Inr (Failure e) \<and> status e = Some 401) \<longleftrightarrow>
   (\<exists>r. reply = Inr r \<and>
        (lunch_status r = 401 \<or>
         (response_ok (lunch_status r) \<and>
          (\<exists>data es. lunch_json r = Inr data \<and> errors data = Some es \<and> list_ex auth_error es))))"
  by (auto simp: fetchLunchWithSession_def response_ok_def split: sum.splits option.splits)

text \<open>A cached attempt that throws ends the request with status 500 and no login.\<close>

lemma cached_attempt_throws:
  assumes "accepted w em pw td"
    and "getCachedSession (now_get w) d em = Some cs"
    and "query_of w 0 (cookie cs) td = Inl t"
  shows "getLunch w d = \<lparr>resp = unexpected t, store = d, calls = [Query (cookie cs) td]\<rparr>"
  using assms by (simp add: getLunch_accepted with_session_eq)

text \<open>The calls of every request, path by path.\<close>

lemma getLunch_calls_cases:
  "calls (getLunch w d) = [] \<or>
   (\<exists>c t. calls (getLunch w d) = [Query c t]) \<or>
   (\<exists>e p. calls (getLunch w d) = [Login e p]) \<or>
   (\<exists>e p c x t. calls (getLunch w d) = [Login e p, Put e c x, Query c t]) \<or>
   (\<exists>c t e p. calls (getLunch w d) = [Query c t, Login e p]) \<or>
   (\<exists>c t e p c' x. calls (getLunch w d) = [Query c t, Login e p, Put e c' x, Query c' t])"
  by (simp add: getLunch_def Let_def with_session_eq login_if_needed_eq
        split: sum.splits option.splits)

text \<open>
  Claim C1. In every request, whatever the inputs, loginAndGetSession is called at
  most once and fetchLunchWithSession at most twice; a request makes at most four
  calls in all, so the protocol does not loop.
\<close>

theorem getLunch_call_bounds:
  "count_of is_login (calls (getLunch w d)) \<le> 1 \<and>
   count_of is_query (calls (getLunch w d)) \<le> 2 \<and>
   length (calls (getLunch w d)) \<le> 4"
  using getLunch_calls_cases [of w d]
  by (auto simp: count_of_def)

lemma ex_target: "targetDateStr_of (\<lambda>tz. Inr ''2025-01-02'') 0 None 0 = Inr ''2025-01-02''"
  by code_simp

lemma ex_days: "getDaysAhead (\<lambda>tz. Inr ''09'') None = Inr 0"
  by code_simp

lemma ex_accepted: "accepted (ex_world st) ''a@x'' ''pw'' ''2025-01-02''"
  by (simp add: accepted_def ex_world_def ex_days ex_target)

lemma ex_login: "login_of (ex_world st) ''a@x'' ''pw'' = Some (''_easyorder_session=abc123'', 1924988400000)"
  unfolding login_of_def ex_world_def by code_simp

lemma ex_cached:
  "getCachedSession (now_get (ex_world st)) live_db ''a@x'' =
     Some \<lparr>doc_id = 0, email = ''a@x'', cookie = ''_easyorder_session=stale'',
           expiresAt = 900, createdAt = 1\<rparr>"
  by (simp add: ex_world_def live_db_def getCachedSession_def by_email_def)

lemma ex_query0_401:
  "query_of (ex_world 401) 0 ''_easyorder_session=stale'' ''2025-01-02'' =
     Inr (Failure \<lparr>error = ''Failed to fetch lunch data with status 401'', status = Some 401\<rparr>)"
  unfolding query_of_def ex_world_def by code_simp

lemma ex_query0_503:
  "query_of (ex_world 503) 0 ''_easyorder_session=stale'' ''2025-01-02'' =
     Inr (Failure \<lparr>error = ''Failed to fetch lunch data with status 503'', status = Some 503\<rparr>)"
  unfolding query_of_def ex_world_def by code_simp

lemma ex_query1:
  "reply_response (query_of (ex_world st) 1 ''_easyorder_session=abc123'' ''2025-01-02'') =
     text_response ''Cafe A: Sandwich, Soup''"
  unfolding query_of_def ex_world_def reply_response_def ex_lunch_def by code_simp

lemma ex_accepted_down: "accepted ex_world_down ''a@x'' ''pw'' ''2025-01-02''"
  by (simp add: accepted_def ex_world_down_def ex_world_def ex_days ex_target)

lemma ex_accepted_nologin: "accepted ex_world_nologin ''a@x'' ''pw'' ''2025-01-02''"
  by (simp add: accepted_def ex_world_nologin_def ex_world_def ex_days ex_target)

lemma ex_cached_down:
  "getCachedSession (now_get ex_world_down) live_db ''a@x'' =
     Some \<lparr>doc_id = 0, email = ''a@x'', cookie = ''_easyorder_session=stale'',
           expiresAt = 900, createdAt = 1\<rparr>"
  by (simp add: ex_world_down_def ex_world_def live_db_def getCachedSession_def by_email_def)

lemma ex_cached_nologin:
  "getCachedSession (now_get ex_world_nologin) live_db ''a@x'' =
     Some \<lparr>doc_id = 0, email = ''a@x'', cookie = ''_easyorder_session=stale'',
           expiresAt = 900, createdAt = 1\<rparr>"
  by (simp add: ex_world_nologin_def ex_world_def live_db_def getCachedSession_def by_email_def)

lemma ex_fetch0:
  "fetchLunchWithSession (lunch_reply (ex_world 401) 0 ''_easyorder_session=stale'' ''2025-01-02'')
     ''2025-01-02'' =
     Inr (Failure \<lparr>error = ''Failed to fetch lunch data with status 401'', status = Some 401\<rparr>)"
  "fetchLunchWithSession (lunch_reply (ex_world 503) 0 ''_easyorder_session=stale'' ''2025-01-02'')
     ''2025-01-02'' =
     Inr (Failure \<lparr>error = ''Failed to fetch lunch data with status 503'', status = Some 503\<rparr>)"
  "fetchLunchWithSession (lunch_reply ex_world_nologin 0 ''_easyorder_session=stale'' ''2025-01-02'')
     ''2025-01-02'' =
     Inr (Failure \<lparr>error = ''Failed to fetch lunch data with status 401'', status = Some 401\<rparr>)"
  "fetchLunchWithSession (lunch_reply ex_world_down 0 ''_easyorder_session=stale'' ''2025-01-02'')
     ''2025-01-02'' = Inl (JsError ''fetch failed'')"
  unfolding ex_world_def ex_world_down_def ex_world_nologin_def by code_simp+

lemma ex_fetch1:
  "fetchLunchWithSession (lunch_reply (ex_world st) (Suc 0) ''_easyorder_session=abc123'' ''2025-01-02'')
     ''2025-01-02'' =
     Inr (Delivered \<lparr>date = ''2025-01-02'',
                     lunch = [\<lparr>restaurant = ''Cafe A'', items = [''Sandwich'', ''Soup'']\<rparr>],
                     success = True\<rparr>)"
  unfolding ex_world_def ex_lunch_def by code_simp

lemma ex_format:
  "formatLunchResponse
     (Delivered \<lparr>date = ''2025-01-02'',
                 lunch = [\<lparr>restaurant = ''Cafe A'', items = [''Sandwich'', ''Soup'']\<rparr>],
                 success = True\<rparr>) = ''Cafe A: Sandwich, Soup''"
  by code_simp

lemma ex_login_raw:
  "loginAndGetSession (login_reply (ex_world st)) (date_parse (ex_world st))
     (now_login (ex_world st)) ''a@x'' ''pw'' = Some (''_easyorder_session=abc123'', 1924988400000)"
  unfolding ex_world_def by code_simp

lemma ex_login_fails:
  "loginAndGetSession (login_reply ex_world_nologin) (date_parse ex_world_nologin)
     (now_login ex_world_nologin) ''a@x'' ''pw'' = None"
  unfolding ex_world_nologin_def ex_world_def by code_simp

text \<open>
  Claim C2. When there is a cached session and the delivery query with its cookie
  fails with status 401, the request logs in. If the login fails, the response is
  status 500 with the JSON error \<open>Failed to login\<close>, and nothing else is called.
  If it succeeds, the new session is stored and the delivery query is made once
  more, with the new cookie, and the response is what that one query gives: status
  200 and the formatted result as plain text when it returns, success or error
  alike, and status 500 with the JSON error of the catch when it throws. The error
  of the cached attempt is not in the response.
\<close>

theorem cached_401_retries:
  assumes "accepted w em pw td"
    and "getCachedSession (now_get w) d em = Some cs"
    and "fetchLunchWithSession (lunch_reply w 0 (cookie cs) td) td = Inr (Failure e)"
    and "status e = Some 401"
  shows "(case loginAndGetSession (login_reply w) (date_parse w) (now_login w) em pw of
        None \<Rightarrow>
          resp (getLunch w d) =
            \<lparr>status_code = 500, content_type = ''application/json'',
             body = JsonError ''Failed to login''\<rparr> \<and>
          calls (getLunch w d) = [Query (cookie cs) td, Login em pw]
      | Some sd \<Rightarrow>
          resp (getLunch w d) =
            (case fetchLunchWithSession (lunch_reply w 1 (fst sd) td) td of
               Inl t \<Rightarrow>
                 \<lparr>status_code = 500, content_type = ''application/json'',
                  body = JsonError (''Unexpected error: ''
                           @ (case t of JsError msg \<Rightarrow> msg | NonError \<Rightarrow> ''Unknown error''))\<rparr>
             | Inr result \<Rightarrow>
                 \<lparr>status_code = 200, content_type = ''text/plain'',
                  body = Plain (formatLunchResponse result)\<rparr>) \<and>
          calls (getLunch w d) =
            [Query (cookie cs) td, Login em pw, Put em (fst sd) (snd sd), Query (fst sd) td])"
  using assms
  by (simp add: getLunch_accepted with_session_eq login_if_needed_eq login_of_def query_of_def
        reply_response_def text_response_def json_error_def unexpected_def
        split: option.splits sum.splits)

theorem cached_401_retries_witness:
  "resp (getLunch (ex_world 401) live_db) =
     \<lparr>status_code = 200, content_type = ''text/plain'',
      body = Plain ''Cafe A: Sandwich, Soup''\<rparr> \<and>
   calls (getLunch (ex_world 401) live_db) =
     [Query ''_easyorder_session=stale'' ''2025-01-02'', Login ''a@x'' ''pw'',
      Put ''a@x'' ''_easyorder_session=abc123'' 1924988400000,
      Query ''_easyorder_session=abc123'' ''2025-01-02''] \<and>
   resp (getLunch ex_world_nologin live_db) =
     \<lparr>status_code = 500, content_type = ''application/json'',
      body = JsonError ''Failed to login''\<rparr> \<and>
   calls (getLunch ex_world_nologin live_db) =
     [Query ''_easyorder_session=stale'' ''2025-01-02'', Login ''a@x'' ''pw'']"
proof -
  have s: "status \<lparr>error = ''Failed to fetch lunch data with status 401'', status = Some 401\<rparr>
             = Some 401" by simp
  have c: "cookie \<lparr>doc_id = 0, email = ''a@x'', cookie = ''_easyorder_session=stale'',
             expiresAt = 900, createdAt = 1\<rparr> = ''_easyorder_session=stale''" by simp
  from cached_401_retries [OF ex_accepted ex_cached, of 401
      "\<lparr>error = ''Failed to fetch lunch data with status 401'', status = Some 401\<rparr>", OF _ s]
    cached_401_retries [OF ex_accepted_nologin ex_cached_nologin, of
      "\<lparr>error = ''Failed to fetch lunch data with status 401'', status = Some 401\<rparr>", OF _ s]
  show ?thesis
    by (simp add: c ex_fetch0 ex_fetch1 ex_login_raw ex_login_fails ex_format
          del: formatLunchResponse.simps)
qed

text \<open>
  Claim C3, amended. When there is a cached session and the delivery query with its
  cookie returns an error whose status is not 401, the request calls nothing else,
  in particular no login, and responds with status 200 and the message of that
  error, unchanged, as its plain-text body. When the query fails by throwing, as
  \<open>fetch\<close> does when the upstream cannot be reached, the request calls nothing else
  either, and responds with status 500 and the JSON error \<open>Unexpected error:\<close>
  followed by the message thrown.
\<close>

theorem cached_other_error_final:
  assumes "accepted w em pw td"
    and "getCachedSession (now_get w) d em = Some cs"
  shows "(fetchLunchWithSession (lunch_reply w 0 (cookie cs) td) td = Inr (Failure e) \<and>
          status e \<noteq> Some 401 \<longrightarrow>
            getLunch w d =
              \<lparr>resp = \<lparr>status_code = 200, content_type = ''text/plain'', body = Plain (error e)\<rparr>,
               store = d, calls = [Query (cookie cs) td]\<rparr>) \<and>
         (fetchLunchWithSession (lunch_reply w 0 (cookie cs) td) td = Inl t \<longrightarrow>
            getLunch w d =
              \<lparr>resp = \<lparr>status_code = 500, content_type = ''application/json'',
                       body = JsonError (''Unexpected error: ''
                                @ (case t of JsError msg \<Rightarrow> msg | NonError \<Rightarrow> ''Unknown error''))\<rparr>,
               store = d, calls = [Query (cookie cs) td]\<rparr>)"
  using assms
  by (simp add: getLunch_accepted with_session_eq query_of_def text_response_def
        json_error_def unexpected_def)

text \<open>
  A non-success status of the upstream gives its message as the body; an upstream
  that cannot be reached gives the JSON error of the catch.
\<close>

theorem cached_other_error_final_witness:
  "getLunch (ex_world 503) live_db =
     \<lparr>resp = \<lparr>status_code = 200, content_type = ''text/plain'',
              body = Plain ''Failed to fetch lunch data with status 503''\<rparr>,
      store = live_db, calls = [Query ''_easyorder_session=stale'' ''2025-01-02'']\<rparr> \<and>
   getLunch ex_world_down live_db =
     \<lparr>resp = \<lparr>status_code = 500, content_type = ''application/json'',
              body = JsonError ''Unexpected error: fetch failed''\<rparr>,
      store = live_db, calls = [Query ''_easyorder_session=stale'' ''2025-01-02'']\<rparr>"
proof -
  have c: "cookie \<lparr>doc_id = 0, email = ''a@x'', cookie = ''_easyorder_session=stale'',
             expiresAt = 900, createdAt = 1\<rparr> = ''_easyorder_session=stale''" by simp
  from cached_other_error_final [OF ex_accepted ex_cached, of 503
      "\<lparr>error = ''Failed to fetch lunch data with status 503'', status = Some 503\<rparr>"]
    cached_other_error_final [OF ex_accepted_down ex_cached_down, of _ "JsError ''fetch failed''"]
  show ?thesis
    by (simp add: c ex_fetch0)
qed

text \<open>
  Claim C3 as stated fails when the upstream cannot be reached: the query with the
  cached cookie fails with an error that is not an authentication failure, and the
  response is not that error as the body, but status 500 with a JSON error whose
  message has a prefix.
\<close>

theorem cached_unreachable_counterexample:
  "fetchLunchWithSession
     (lunch_reply ex_world_down 0 ''_easyorder_session=stale'' ''2025-01-02'') ''2025-01-02'' =
     Inl (JsError ''fetch failed'') \<and>
   resp (getLunch ex_world_down live_db) =
     \<lparr>status_code = 500, content_type = ''application/json'',
      body = JsonError ''Unexpected error: fetch failed''\<rparr> \<and>
   body (resp (getLunch ex_world_down live_db)) \<noteq> Plain ''fetch failed''"
proof -
  have q: "query_of ex_world_down 0
             (cookie \<lparr>doc_id = 0, email = ''a@x'', cookie = ''_easyorder_session=stale'',
                      expiresAt = 900, createdAt = 1\<rparr>) ''2025-01-02'' =
           Inl (JsError ''fetch failed'')"
    by (simp add: query_of_def ex_fetch0)
  from cached_attempt_throws [OF ex_accepted_down ex_cached_down q]
  show ?thesis by (simp add: ex_fetch0 unexpected_def json_error_def)
qed




lemma ex_getLunch_401:
  "getLunch (ex_world 401) live_db =
     \<lparr>resp = text_response ''Cafe A: Sandwich, Soup'',
      store = storeCachedSession 520 live_db ''a@x'' ''_easyorder_session=abc123'' 1924988400000,
      calls = [Query ''_easyorder_session=stale'' ''2025-01-02'', Login ''a@x'' ''pw'',
               Put ''a@x'' ''_easyorder_session=abc123'' 1924988400000,
               Query ''_easyorder_session=abc123'' ''2025-01-02'']\<rparr>"
  using ex_query0_401 ex_login [of 401] ex_query1 [of 401]
  by (simp add: getLunch_accepted [OF ex_accepted] with_session_eq ex_cached login_if_needed_eq)
     (simp add: ex_world_def)

text \<open>
  The request of the example makes all four calls: the cached attempt, the login,
  the put and the retry.
\<close>

theorem getLunch_call_bounds_witness:
  "count_of is_login (calls (getLunch (ex_world 401) live_db)) = 1 \<and>
   count_of is_query (calls (getLunch (ex_world 401) live_db)) = 2 \<and>
   length (calls (getLunch (ex_world 401) live_db)) = 4"
  using getLunch_call_bounds [of "ex_world 401" live_db]
  by (simp add: ex_getLunch_401 count_of_def)



section \<open>The login\<close>

lemma try_down_Some:
  "try_down rest s lo k = Some n \<Longrightarrow>
     \<exists>j n'. lo \<le> j \<and> j \<le> k \<and> rest (drop j s) = Some n' \<and> n = j + n'"
proof (induction k)
  case 0
  then show ?case by (auto split: if_splits)
next
  case (Suc k)
  show ?case
  proof (cases "rest (drop (Suc k) s)")
    case None
    with Suc.prems have "try_down rest s lo k = Some n" and "lo \<le> Suc k"
      by (auto split: if_splits)
    with Suc.IH show ?thesis by (meson le_Suc_eq)
  next
    case (Some n')
    with Suc.prems have "lo \<le> Suc k" and "n = Suc k + n'"
      by (auto split: if_splits)
    with Some show ?thesis by blast
  qed
qed

lemma try_down_None:
  "try_down rest s lo k = None \<Longrightarrow> lo \<le> j \<Longrightarrow> j \<le> k \<Longrightarrow> rest (drop j s) = None"
proof (induction k)
  case 0
  then show ?case by (auto split: if_splits)
next
  case (Suc k)
  show ?case
  proof (cases "j = Suc k")
    case True
    with Suc.prems show ?thesis by (auto split: if_splits option.splits)
  next
    case False
    with Suc.prems have "j \<le> k" by simp
    moreover from Suc.prems have "try_down rest s lo k = None"
      by (auto split: if_splits option.splits)
    ultimately show ?thesis using Suc.IH Suc.prems(2) by blast
  qed
qed

lemma max_run_le: "max_run P hi s \<le> length (takeWhile P s)"
  by (simp add: max_run_def Let_def split: option.splits)

lemma max_run_hi: "hi = Some h \<Longrightarrow> max_run P hi s \<le> h"
  by (simp add: max_run_def Let_def)

lemma take_run_all: "j \<le> length (takeWhile P s) \<Longrightarrow> list_all P (take j s)"
proof (induction s arbitrary: j)
  case Nil
  then show ?case by simp
next
  case (Cons c cs)
  then show ?case by (cases j) (auto split: if_splits)
qed

lemma all_take_run: "list_all P (take k s) \<Longrightarrow> k \<le> length s \<Longrightarrow> k \<le> length (takeWhile P s)"
proof (induction s arbitrary: k)
  case Nil
  then show ?case by simp
next
  case (Cons c cs)
  then show ?case by (cases k) auto
qed

lemma rx_matches_Cons:
  "rx_matches ((P, lo, hi) # as) m \<longleftrightarrow>
     (\<exists>k. k \<le> length m \<and> lo \<le> k \<and> (\<forall>h. hi = Some h \<longrightarrow> k \<le> h) \<and>
          list_all P (take k m) \<and> rx_matches as (drop k m))"
  by (auto simp: list_ex_iff less_Suc_eq_le split: option.splits simp del: upt_Suc)

lemma rx_here_sound:
  "rx_here as s = Some n \<Longrightarrow> n \<le> length s \<and> rx_matches as (take n s)"
proof (induction as arbitrary: s n)
  case Nil
  then show ?case by simp
next
  case (Cons a as)
  obtain P lo hi where a: "a = (P, lo, hi)" by (cases a)
  from Cons.prems a have "try_down (rx_here as) s lo (max_run P hi s) = Some n" by simp
  then obtain j n' where j: "lo \<le> j" "j \<le> max_run P hi s"
    and r: "rx_here as (drop j s) = Some n'" and n: "n = j + n'"
    using try_down_Some by blast
  from Cons.IH [OF r] have n': "n' \<le> length (drop j s)"
    and m: "rx_matches as (take n' (drop j s))" by simp_all
  from j(2) have jrun: "j \<le> length (takeWhile P s)" using max_run_le le_trans by blast
  then have jlen: "j \<le> length s" using length_takeWhile_le le_trans by blast
  with n' n have nlen: "n \<le> length s" by simp
  have "take j (take n s) = take j s" using n by (simp add: min_def)
  with jrun have allP: "list_all P (take j (take n s))" by (simp add: take_run_all)
  have "drop j (take n s) = take n' (drop j s)" using n by (simp add: drop_take)
  with m have rest: "rx_matches as (drop j (take n s))" by simp
  have "j \<le> length (take n s)" using n nlen by simp
  moreover have "\<forall>h. hi = Some h \<longrightarrow> j \<le> h" using j(2) max_run_hi le_trans by blast
  ultimately have "rx_matches ((P, lo, hi) # as) (take n s)"
    unfolding rx_matches_Cons using j(1) allP rest by blast
  with a nlen show ?case by simp
qed

lemma rx_here_complete:
  "rx_matches as m \<Longrightarrow> rx_here as (m @ rest) \<noteq> None"
proof (induction as arbitrary: m)
  case Nil
  then show ?case by simp
next
  case (Cons a as)
  obtain P lo hi where a: "a = (P, lo, hi)" by (cases a)
  from Cons.prems have "rx_matches ((P, lo, hi) # as) m" unfolding a .
  then have "\<exists>k. k \<le> length m \<and> lo \<le> k \<and> (\<forall>h. hi = Some h \<longrightarrow> k \<le> h) \<and>
          list_all P (take k m) \<and> rx_matches as (drop k m)"
    by (simp only: rx_matches_Cons)
  then obtain k where k: "k \<le> length m" "lo \<le> k"
    and hi: "\<forall>h. hi = Some h \<longrightarrow> k \<le> h"
    and allP: "list_all P (take k m)" and r: "rx_matches as (drop k m)"
    by blast
  have tk: "take k (m @ rest) = take k m" and dk: "drop k (m @ rest) = drop k m @ rest"
    using k(1) by simp_all
  have klen: "k \<le> length (m @ rest)" using k(1) by simp
  have "list_all P (take k (m @ rest))" unfolding tk by (rule allP)
  then have "k \<le> length (takeWhile P (m @ rest))"
    using klen by (rule all_take_run)
  with hi have krun: "k \<le> max_run P hi (m @ rest)"
    by (cases hi) (simp_all add: max_run_def Let_def)
  have some: "rx_here as (drop k (m @ rest)) \<noteq> None"
    unfolding dk by (rule Cons.IH [OF r])
  have "try_down (rx_here as) (m @ rest) lo (max_run P hi (m @ rest)) \<noteq> None"
  proof
    assume "try_down (rx_here as) (m @ rest) lo (max_run P hi (m @ rest)) = None"
    from try_down_None [OF this k(2) krun] some show False by contradiction
  qed
  with a show ?case by simp
qed

lemma occurs_at_0: "occurs_at m 0 s \<longleftrightarrow> (\<exists>rest. s = m @ rest)"
proof
  assume "occurs_at m 0 s"
  then have "take (length m) s = m" by (simp add: occurs_at_def)
  then have "s = m @ drop (length m) s" by (metis append_take_drop_id)
  then show "\<exists>rest. s = m @ rest" ..
next
  assume "\<exists>rest. s = m @ rest"
  then show "occurs_at m 0 s" by (auto simp: occurs_at_def)
qed

lemma occurs_at_Suc: "occurs_at m (Suc i) (c # cs) \<longleftrightarrow> occurs_at m i cs"
  by (simp add: occurs_at_def)

lemma rx_search_sound:
  "rx_search as s = Some (i, n) \<Longrightarrow>
     occurs_at (take n (drop i s)) i s \<and> rx_matches as (take n (drop i s))"
proof (induction s arbitrary: i n)
  case Nil
  then have "rx_here as [] = Some n" and "i = 0" by auto
  from rx_here_sound [OF this(1)] \<open>i = 0\<close> show ?case by (simp add: occurs_at_def)
next
  case (Cons c cs)
  show ?case
  proof (cases "rx_here as (c # cs)")
    case (Some k)
    with Cons.prems have "i = 0" and "k = n" by simp_all
    with rx_here_sound [OF Some] show ?thesis by (simp add: occurs_at_def)
  next
    case None
    with Cons.prems obtain i' where "rx_search as cs = Some (i', n)" and "i = Suc i'"
      by auto
    with Cons.IH show ?thesis by (simp add: occurs_at_def)
  qed
qed

lemma rx_search_complete:
  "occurs_at m i s \<Longrightarrow> rx_matches as m \<Longrightarrow> rx_search as s \<noteq> None"
proof (induction s arbitrary: i)
  case Nil
  then have "m = []" by (simp add: occurs_at_def)
  with Nil rx_here_complete [of as m "[]"] show ?case by simp
next
  case (Cons c cs)
  show ?case
  proof (cases i)
    case 0
    with Cons.prems obtain rest where "c # cs = m @ rest" by (auto simp: occurs_at_0)
    with rx_here_complete [OF Cons.prems(2), of rest] have "rx_here as (c # cs) \<noteq> None"
      by simp
    then show ?thesis by (auto split: option.splits)
  next
    case (Suc i')
    with Cons.prems have "occurs_at m i' cs" by (simp add: occurs_at_Suc)
    with Cons.IH Cons.prems(2) have "rx_search as cs \<noteq> None" by blast
    then show ?thesis by (auto split: option.splits)
  qed
qed

lemma rx_match_Some:
  "rx_match as s = Some m \<Longrightarrow> rx_matches as m \<and> (\<exists>i. occurs_at m i s)"
proof -
  assume "rx_match as s = Some m"
  then obtain i n where f: "rx_search as s = Some (i, n)" and m: "m = take n (drop i s)"
    by (auto simp: rx_match_def)
  from rx_search_sound [OF f] m show ?thesis by blast
qed





lemma rx_matches_lit:
  "rx_matches (lit c # as) m \<longleftrightarrow> (\<exists>t. m = c # t \<and> rx_matches as t)"
proof
  assume "rx_matches (lit c # as) m"
  then obtain k where k: "k \<le> length m" "1 \<le> k" "k \<le> 1"
    and allP: "list_all (\<lambda>x. x = c) (take k m)" and r: "rx_matches as (drop k m)"
    unfolding lit_def rx_matches_Cons by auto
  from k have k1: "k = 1" by simp
  with k(1) obtain x t where m: "m = x # t" by (cases m) auto
  with allP r k1 show "\<exists>t. m = c # t \<and> rx_matches as t" by simp
next
  assume "\<exists>t. m = c # t \<and> rx_matches as t"
  then obtain t where m: "m = c # t" and r: "rx_matches as t" by blast
  have "1 \<le> length m \<and> (1::nat) \<le> 1 \<and> (\<forall>h. Some (1::nat) = Some h \<longrightarrow> 1 \<le> h) \<and>
        list_all (\<lambda>x. x = c) (take 1 m) \<and> rx_matches as (drop 1 m)"
    using m r by simp
  then show "rx_matches (lit c # as) m"
    unfolding lit_def rx_matches_Cons by blast
qed

lemma rx_matches_lits:
  "rx_matches (map lit cs @ as) m \<longleftrightarrow> (\<exists>t. m = cs @ t \<and> rx_matches as t)"
proof (induction cs arbitrary: m)
  case Nil
  show ?case by simp
next
  case (Cons c cs)
  have "rx_matches (map lit (c # cs) @ as) m \<longleftrightarrow> rx_matches (lit c # (map lit cs @ as)) m"
    by simp
  also have "\<dots> \<longleftrightarrow> (\<exists>t. m = c # t \<and> rx_matches (map lit cs @ as) t)"
    by (rule rx_matches_lit)
  also have "\<dots> \<longleftrightarrow> (\<exists>t. m = (c # cs) @ t \<and> rx_matches as t)"
    unfolding Cons.IH by auto
  finally show ?case .
qed


text \<open>
  The session cookie is found exactly when the header holds the name of the cookie
  followed by a character other than a semicolon.
\<close>

lemma session_cookie_found_iff:
  "rx_match session_rx h \<noteq> None \<longleftrightarrow>
     (\<exists>pre c post. h = pre @ cookie_name @ c # post \<and> c \<noteq> CHR '';'')"
proof
  assume "rx_match session_rx h \<noteq> None"
  then obtain sm where sm: "rx_match session_rx h = Some sm" by blast
  from rx_match_Some [OF sm] obtain i where m: "rx_matches session_rx sm"
    and occ: "occurs_at sm i h" by blast
  from m obtain t where t: "sm = cookie_name @ t"
    and r: "rx_matches [((\<lambda>c. c \<noteq> CHR '';''), 1, None)] t"
    unfolding session_rx_def cookie_name_def rx_matches_lits by blast
  from r obtain k where k: "1 \<le> k" "k \<le> length t"
    and allk: "list_all (\<lambda>c. c \<noteq> CHR '';'') (take k t)"
    unfolding rx_matches_Cons by auto
  from k obtain c t' where ct: "t = c # t'" by (cases t) auto
  with allk k have c: "c \<noteq> CHR '';''" by (cases k) auto
  from occ have "take (length sm) (drop i h) = sm" by (simp add: occurs_at_def)
  then have "h = take i h @ sm @ drop (length sm) (drop i h)"
    by (metis append_take_drop_id)
  then have "h = take i h @ cookie_name @ c # (t' @ drop (length sm) (drop i h))"
    by (simp add: t ct)
  with c show "\<exists>pre c post. h = pre @ cookie_name @ c # post \<and> c \<noteq> CHR '';''" by blast
next
  assume "\<exists>pre c post. h = pre @ cookie_name @ c # post \<and> c \<noteq> CHR '';''"
  then obtain pre c post where h: "h = pre @ cookie_name @ c # post" and c: "c \<noteq> CHR '';''"
    by blast
  have "1 \<le> length [c] \<and> (1::nat) \<le> 1 \<and> (\<forall>h. (None::nat option) = Some h \<longrightarrow> 1 \<le> h) \<and>
        list_all (\<lambda>c. c \<noteq> CHR '';'') (take 1 [c]) \<and> rx_matches [] (drop 1 [c])"
    using c by simp
  then have "rx_matches [((\<lambda>c. c \<noteq> CHR '';''), 1, None)] [c]"
    unfolding rx_matches_Cons by blast
  then have m: "rx_matches session_rx (cookie_name @ [c])"
    unfolding session_rx_def cookie_name_def rx_matches_lits by blast
  have "occurs_at (cookie_name @ [c]) (length pre) h"
    by (simp add: occurs_at_def h)
  from rx_search_complete [OF this m] show "rx_match session_rx h \<noteq> None"
    by (simp add: rx_match_def)
qed









section \<open>Digits and the texts of the date selector\<close>


























section \<open>The calendar of the Date object\<close>





















section \<open>The date selector\<close>















end
